theory Spec2Isabelle
  imports Main
begin

section \<open>Data model of \<open>server.js\<close>\<close>

text \<open>
  The server keeps four process-wide tables (\<open>games\<close>, \<open>playerStats\<close>,
  \<open>playerNames\<close>, \<open>pendingRematches\<close>) and mutates them in socket event handlers.
  The tables are modelled as maps from keys to records, every handler as a function from
  the server state to a reply and the new state. The messages a handler emits, other than
  whether it emits \<open>errorMsg\<close>, and the broadcast groups of the transport are not
  part of the state and are left out. Values are taken as the source has them: colours and
  cells are strings (the empty string is the empty cell), a nullable field is an
  \<open>option\<close> (\<open>None\<close> is \<open>null\<close>), numbers are integers. What the
  environment supplies (the connection id of the socket, the id drawn by
  \<open>generateGameId\<close>, the clock read by \<open>Date.now\<close>) is a parameter of the
  handler. The payload of \<open>makeMove\<close> is taken at the types the handler is written
  for, an integer column and a string colour. The handler itself tests only
  \<^verbatim>\<open>col < 0 || col > 6\<close>, so it also accepts a column that is no integer (the number
  2.5, say): it then writes a property of the row array that is no cell of the board, and
  counts the move all the same. Such payloads are outside the model; what they do to the
  move counter is told under C8.
\<close>

type_synonym conn = string
type_synonym board = "string list list"

datatype status = Waiting | Playing | Finished | Abandoned

record players =
  red :: "conn option"
  redName :: "string option"
  yellow :: "conn option"
  yellowName :: "string option"

record game =
  board :: board
  currentPlayer :: string
  players :: players
  winner :: "string option"
  winningCells :: "(int \<times> int) list"
  status :: status
  createdAt :: int
  lastMoveAt :: "int option"
  moves :: int
  originalGameId :: string
  gameNumber :: int

record seat_stats =
  pid :: "conn option"
  pname :: "string option"
  wins :: int

record stats =
  seriesId :: string
  redStats :: seat_stats
  yellowStats :: seat_stats
  gamesPlayed :: int

record rematch =
  gameId :: string
  requester :: conn
  opponent :: "conn option"
  timestamp :: int

record server =
  games :: "string \<rightharpoonup> game"
  playerStats :: "string \<rightharpoonup> stats"
  playerNames :: "conn \<rightharpoonup> string"
  pendingRematches :: "string \<rightharpoonup> rematch"

datatype error =
  GameNotFound | GameFull | GameEnded | NotYourTurn | WaitingForOpponent
  | InvalidColumn | ColumnFull | CannotRequestRematch | InvalidRematchAcceptance
  | StatsNotFound

text \<open>A handler's reply: \<open>Some e\<close> when it emits \<open>errorMsg\<close>, \<open>None\<close> otherwise.\<close>

type_synonym reply = "error option"

text \<open>
  JavaScript truthiness of a string-or-null value: \<open>null\<close> and the empty string are
  falsy. A connection id is a non-empty string, so a seat is falsy exactly when it is
  \<open>null\<close>.
\<close>

definition truthy :: "string option \<Rightarrow> bool" where
  "truthy v = (case v of None \<Rightarrow> False | Some x \<Rightarrow> x \<noteq> [])"

section \<open>Board engine\<close>

definition emptyBoard :: board where
  "emptyBoard = replicate 6 (replicate 7 [])"

text \<open>
  \<open>board[r][c]\<close>: the cell, or \<open>None\<close> for JavaScript's \<open>undefined\<close> when the
  column index is outside the row. Every board of the program has 6 rows of 7 cells.
\<close>

definition cellAt :: "board \<Rightarrow> int \<Rightarrow> int \<Rightarrow> string option" where
  "cellAt b r c =
     (if 0 \<le> r \<and> r < int (length b) \<and> 0 \<le> c \<and> c < int (length (b ! nat r))
      then Some (b ! nat r ! nat c) else None)"

text \<open>
  The inner loop shared by \<open>checkWin\<close> and \<open>getWinningCells\<close>:
  \<^verbatim>\<open>while (r >= 0 && r < 6 && c >= 0 && c < 7 && board[r][c] === player) { ...; r += dx; c += dy; }\<close>
  It returns the cells it visits, in order; \<open>checkWin\<close> counts them,
  \<open>getWinningCells\<close> pushes them. The source only passes the eight unit directions of
  \<open>dirs\<close>; the step \<open>(0, 0)\<close>, on which the loop would not end, stops at once here.
\<close>

function walk :: "board \<Rightarrow> string \<Rightarrow> int \<Rightarrow> int \<Rightarrow> int \<Rightarrow> int \<Rightarrow> (int \<times> int) list" where
  "walk b player r c dx dy =
     (if (dx \<noteq> 0 \<or> dy \<noteq> 0) \<and> r \<ge> 0 \<and> r < 6 \<and> c \<ge> 0 \<and> c < 7 \<and> cellAt b r c = Some player
      then (r, c) # walk b player (r + dx) (c + dy) dx dy
      else [])"
  by pat_completeness auto
termination
  by (relation "measure (\<lambda>(b, p, r, c, dx, dy).
        if dx > 0 then nat (6 - r) else if dx < 0 then nat (r + 1)
        else if dy > 0 then nat (7 - c) else nat (c + 1))") auto

declare walk.simps [simp del]

definition dirs :: "((int \<times> int) \<times> (int \<times> int)) list" where
  "dirs = [((0, 1), (0, -1)), ((1, 0), (-1, 0)), ((1, 1), (-1, -1)), ((1, -1), (-1, 1))]"

text \<open>The cells collected for one entry of \<open>dirs\<close>: the start cell, then both walks.\<close>

definition collect :: "int \<Rightarrow> int \<Rightarrow> board \<Rightarrow> string \<Rightarrow> (int \<times> int) \<times> (int \<times> int) \<Rightarrow> (int \<times> int) list" where
  "collect row col b player dir =
     (case dir of ((dx1, dy1), (dx2, dy2)) \<Rightarrow>
        (row, col) # walk b player (row + dx1) (col + dy1) dx1 dy1
                   @ walk b player (row + dx2) (col + dy2) dx2 dy2)"

fun checkWinDirs :: "int \<Rightarrow> int \<Rightarrow> board \<Rightarrow> string \<Rightarrow> ((int \<times> int) \<times> (int \<times> int)) list \<Rightarrow> bool" where
  "checkWinDirs row col b player [] = False"
| "checkWinDirs row col b player (dir # ds) =
     (if length (collect row col b player dir) \<ge> 4 then True
      else checkWinDirs row col b player ds)"

definition checkWin :: "int \<Rightarrow> int \<Rightarrow> board \<Rightarrow> string \<Rightarrow> bool" where
  "checkWin row col b player = checkWinDirs row col b player dirs"

fun getWinningCellsDirs :: "int \<Rightarrow> int \<Rightarrow> board \<Rightarrow> string \<Rightarrow> ((int \<times> int) \<times> (int \<times> int)) list \<Rightarrow> (int \<times> int) list" where
  "getWinningCellsDirs row col b player [] = []"
| "getWinningCellsDirs row col b player (dir # ds) =
     (let cells = collect row col b player dir in
      if length cells \<ge> 4 then
        (let firstCell = hd cells;
             lastCell = last cells;
             dx = sgn (fst lastCell - fst firstCell);
             dy = sgn (snd lastCell - snd firstCell)
         in map (\<lambda>i. (fst firstCell + dx * i, snd firstCell + dy * i)) [0, 1, 2, 3])
      else getWinningCellsDirs row col b player ds)"

definition getWinningCells :: "int \<Rightarrow> int \<Rightarrow> board \<Rightarrow> string \<Rightarrow> (int \<times> int) list" where
  "getWinningCells row col b player = getWinningCellsDirs row col b player dirs"

definition isBoardFull :: "board \<Rightarrow> bool" where
  "isBoardFull b = list_all (\<lambda>cell. cell \<noteq> []) (b ! 0)"

text \<open>
  \<open>game.board[row][col] = color\<close>. The handler only writes inside a 6 by 7 board.
\<close>

definition setCell :: "board \<Rightarrow> int \<Rightarrow> int \<Rightarrow> string \<Rightarrow> board" where
  "setCell b r c v = b[nat r := (b ! nat r)[nat c := v]]"

text \<open>
  The drop loop of \<open>makeMove\<close>:
  \<^verbatim>\<open>let row = -1; for (let r = 5; r >= 0; r--) { if (!game.board[r][col]) { row = r; break; } }\<close>
  \<open>findRow b col 5\<close> is the value of \<open>row\<close> after the loop.
\<close>

fun findRow :: "board \<Rightarrow> int \<Rightarrow> nat \<Rightarrow> int" where
  "findRow b col 0 = (if \<not> truthy (cellAt b 0 col) then 0 else -1)"
| "findRow b col (Suc r) =
     (if \<not> truthy (cellAt b (int (Suc r)) col) then int (Suc r) else findRow b col r)"

section \<open>Stats tracker\<close>

definition initializePlayerStats ::
  "string \<Rightarrow> conn option \<Rightarrow> conn option \<Rightarrow> string option \<Rightarrow> string option \<Rightarrow> server \<Rightarrow> server" where
  "initializePlayerStats gid redPlayerId yellowPlayerId rName yName s =
     (case playerStats s gid of
        None \<Rightarrow> s\<lparr>playerStats := (playerStats s)(gid \<mapsto>
          \<lparr>seriesId = gid,
           redStats = \<lparr>pid = redPlayerId, pname = rName, wins = 0\<rparr>,
           yellowStats = \<lparr>pid = yellowPlayerId, pname = yName, wins = 0\<rparr>,
           gamesPlayed = 0\<rparr>)\<rparr>
      | Some _ \<Rightarrow> s)"

definition updatePlayerStats :: "string \<Rightarrow> string \<Rightarrow> server \<Rightarrow> server" where
  "updatePlayerStats gid w s =
     (case playerStats s gid of
        None \<Rightarrow> s
      | Some st \<Rightarrow>
          (let st1 = st\<lparr>gamesPlayed := gamesPlayed st + 1\<rparr>;
               st2 = (if w = ''red'' then st1\<lparr>redStats := (redStats st1)\<lparr>wins := wins (redStats st1) + 1\<rparr>\<rparr>
                      else if w = ''yellow'' then st1\<lparr>yellowStats := (yellowStats st1)\<lparr>wins := wins (yellowStats st1) + 1\<rparr>\<rparr>
                      else st1)
           in s\<lparr>playerStats := (playerStats s)(gid \<mapsto> st2)\<rparr>))"

section \<open>Event handlers\<close>

text \<open>
  \<open>name.trim()\<close> on the ASCII white space characters, and the default display name
  \<^verbatim>\<open>`Player_${socket.id.substring(0, 4)}`\<close>.
\<close>

definition isSpace :: "char \<Rightarrow> bool" where
  "isSpace ch = (ch \<in> set [CHR '' '', CHR 0x09, CHR 0x0A, CHR 0x0B, CHR 0x0C, CHR 0x0D])"

definition trim :: "string \<Rightarrow> string" where
  "trim x = rev (dropWhile isSpace (rev (dropWhile isSpace x)))"

definition defaultName :: "conn \<Rightarrow> string" where
  "defaultName sock = ''Player_'' @ take 4 sock"

definition setPlayerName :: "conn \<Rightarrow> string \<Rightarrow> server \<Rightarrow> reply \<times> server" where
  "setPlayerName sock nm s =
     (if nm \<noteq> [] \<and> length (trim nm) > 0
      then (None, s\<lparr>playerNames := (playerNames s)(sock \<mapsto> take 15 (trim nm))\<rparr>)
      else (None, s\<lparr>playerNames := (playerNames s)(sock \<mapsto> defaultName sock)\<rparr>))"

text \<open>\<^verbatim>\<open>playerNames[socket.id] || `Player_...`\<close>\<close>

definition nameOf :: "server \<Rightarrow> conn \<Rightarrow> string" where
  "nameOf s sock =
     (case playerNames s sock of
        None \<Rightarrow> defaultName sock
      | Some nm \<Rightarrow> if nm \<noteq> [] then nm else defaultName sock)"

definition createGame :: "conn \<Rightarrow> string \<Rightarrow> int \<Rightarrow> server \<Rightarrow> reply \<times> server" where
  "createGame sock newId now s =
     (None, s\<lparr>games := (games s)(newId \<mapsto>
        \<lparr>board = emptyBoard,
         currentPlayer = ''red'',
         players = \<lparr>red = Some sock, redName = Some (nameOf s sock), yellow = None, yellowName = None\<rparr>,
         winner = None,
         winningCells = [],
         status = Waiting,
         createdAt = now,
         lastMoveAt = None,
         moves = 0,
         originalGameId = newId,
         gameNumber = 1\<rparr>)\<rparr>)"

definition joinGame :: "conn \<Rightarrow> string \<Rightarrow> server \<Rightarrow> reply \<times> server" where
  "joinGame sock gid s =
     (case games s gid of
        None \<Rightarrow> (Some GameNotFound, s)
      | Some g \<Rightarrow>
          if truthy (yellow (players g)) then (Some GameFull, s)
          else
            (let g1 = g\<lparr>players := (players g)\<lparr>yellow := Some sock, yellowName := Some (nameOf s sock)\<rparr>,
                       status := Playing\<rparr>
             in (None, initializePlayerStats (originalGameId g1) (red (players g1)) (yellow (players g1))
                         (redName (players g1)) (yellowName (players g1))
                         (s\<lparr>games := (games s)(gid \<mapsto> g1)\<rparr>))))"

definition placeDisc :: "game \<Rightarrow> int \<Rightarrow> int \<Rightarrow> string \<Rightarrow> int \<Rightarrow> game" where
  "placeDisc g row col color now =
     g\<lparr>board := setCell (board g) row col color, moves := moves g + 1, lastMoveAt := Some now\<rparr>"

definition makeMove :: "conn \<Rightarrow> string \<Rightarrow> int \<Rightarrow> string \<Rightarrow> int \<Rightarrow> server \<Rightarrow> reply \<times> server" where
  "makeMove sock gid col color now s =
     (case games s gid of
        None \<Rightarrow> (Some GameNotFound, s)
      | Some g \<Rightarrow>
          if truthy (winner g) then (Some GameEnded, s)
          else if currentPlayer g \<noteq> color then (Some NotYourTurn, s)
          else if \<not> truthy (red (players g)) \<or> \<not> truthy (yellow (players g))
            then (Some WaitingForOpponent, s)
          else if col < 0 \<or> col > 6 then (Some InvalidColumn, s)
          else
            (let row = findRow (board g) col 5 in
             if row = -1 then (Some ColumnFull, s)
             else
               (let g1 = placeDisc g row col color now in
                if checkWin row col (board g1) color then
                  (None, updatePlayerStats (originalGameId g1) color
                     (s\<lparr>games := (games s)(gid \<mapsto>
                        g1\<lparr>winner := Some color,
                           winningCells := getWinningCells row col (board g1) color,
                           status := Finished\<rparr>)\<rparr>))
                else if isBoardFull (board g1) then
                  (None, s\<lparr>games := (games s)(gid \<mapsto> g1\<lparr>winner := Some ''draw'', status := Finished\<rparr>)\<rparr>)
                else
                  (None, s\<lparr>games := (games s)(gid \<mapsto>
                     g1\<lparr>currentPlayer := (if color = ''red'' then ''yellow'' else ''red'')\<rparr>)\<rparr>))))"

definition requestRematch :: "conn \<Rightarrow> string \<Rightarrow> int \<Rightarrow> server \<Rightarrow> reply \<times> server" where
  "requestRematch sock gid now s =
     (case games s gid of
        None \<Rightarrow> (Some CannotRequestRematch, s)
      | Some g \<Rightarrow>
          if \<not> truthy (red (players g)) \<or> \<not> truthy (yellow (players g))
            then (Some CannotRequestRematch, s)
          else
            (let opponentId = (if red (players g) = Some sock then yellow (players g) else red (players g))
             in (None, s\<lparr>pendingRematches := (pendingRematches s)(gid \<mapsto>
                   \<lparr>gameId = gid, requester = sock, opponent = opponentId, timestamp = now\<rparr>)\<rparr>)))"

definition acceptRematch :: "conn \<Rightarrow> string \<Rightarrow> string \<Rightarrow> int \<Rightarrow> server \<Rightarrow> reply \<times> server" where
  "acceptRematch sock gid newGameId now s =
     (case pendingRematches s gid of
        None \<Rightarrow> (Some InvalidRematchAcceptance, s)
      | Some pendingRematch \<Rightarrow>
          if opponent pendingRematch \<noteq> Some sock then (Some InvalidRematchAcceptance, s)
          else
            (case games s gid of
               None \<Rightarrow> (Some GameNotFound, s)
             | Some g \<Rightarrow>
                 (case playerStats s (originalGameId g) of
                    None \<Rightarrow> (Some StatsNotFound, s)
                  | Some st \<Rightarrow>
                      (let newGame =
                         \<lparr>board = emptyBoard,
                          currentPlayer = ''red'',
                          players = \<lparr>red = red (players g), redName = redName (players g),
                                     yellow = yellow (players g), yellowName = yellowName (players g)\<rparr>,
                          winner = None,
                          winningCells = [],
                          status = Playing,
                          createdAt = now,
                          lastMoveAt = None,
                          moves = 0,
                          originalGameId = originalGameId g,
                          gameNumber = gamesPlayed st + 1\<rparr>
                       in (None, s\<lparr>games := ((games s)(newGameId \<mapsto> newGame))(gid := None),
                                   pendingRematches := (pendingRematches s)(gid := None)\<rparr>)))))"

definition declineRematch :: "conn \<Rightarrow> string \<Rightarrow> server \<Rightarrow> reply \<times> server" where
  "declineRematch sock gid s =
     (case pendingRematches s gid of
        None \<Rightarrow> (None, s)
      | Some _ \<Rightarrow> (None, s\<lparr>pendingRematches := (pendingRematches s)(gid := None)\<rparr>))"

text \<open>
  The seat logic that \<open>leaveGame\<close> and \<open>disconnect\<close> both carry: the seat of the
  departing connection is nulled, the status set to \<open>abandoned\<close> and the winner to the
  other colour.
\<close>

definition vacate :: "conn \<Rightarrow> game \<Rightarrow> game" where
  "vacate sock g =
     (if red (players g) = Some sock
        then g\<lparr>players := (players g)\<lparr>red := None\<rparr>, status := Abandoned, winner := Some ''yellow''\<rparr>
      else if yellow (players g) = Some sock
        then g\<lparr>players := (players g)\<lparr>yellow := None\<rparr>, status := Abandoned, winner := Some ''red''\<rparr>
      else g)"

definition leaveGame :: "conn \<Rightarrow> string \<Rightarrow> server \<Rightarrow> reply \<times> server" where
  "leaveGame sock gid s =
     (case games s gid of
        None \<Rightarrow> (None, s)
      | Some g \<Rightarrow>
          (None, s\<lparr>games := (games s)(gid \<mapsto> vacate sock g),
                   pendingRematches := (pendingRematches s)(gid := None)\<rparr>))"

text \<open>
  The callback that \<open>leaveGame\<close> and \<open>disconnect\<close> schedule with \<open>setTimeout\<close>:
  \<^verbatim>\<open>if (games[gameId]) { delete games[gameId]; }\<close>. It is an event of its own.
\<close>

definition removeGame :: "string \<Rightarrow> server \<Rightarrow> server" where
  "removeGame gid s = s\<lparr>games := (games s)(gid := None)\<rparr>"

definition seated :: "conn \<Rightarrow> game \<Rightarrow> bool" where
  "seated sock g = (red (players g) = Some sock \<or> yellow (players g) = Some sock)"

text \<open>
  \<open>disconnect\<close> visits every entry of \<open>games\<close>; an entry is touched only through its
  own key, so the order of the visit does not matter.
\<close>

definition disconnect :: "conn \<Rightarrow> server \<Rightarrow> reply \<times> server" where
  "disconnect sock s =
     (None, s\<lparr>games := (\<lambda>gid. case games s gid of
                           None \<Rightarrow> None
                         | Some g \<Rightarrow> if seated sock g then Some (vacate sock g) else Some g),
              pendingRematches := (\<lambda>gid. case games s gid of
                           None \<Rightarrow> pendingRematches s gid
                         | Some g \<Rightarrow> if seated sock g then None else pendingRematches s gid),
              playerNames := (playerNames s)(sock := None)\<rparr>)"

text \<open>The two interval timers.\<close>

definition sweepRematches :: "int \<Rightarrow> server \<Rightarrow> server" where
  "sweepRematches now s =
     s\<lparr>pendingRematches := (\<lambda>gid. case pendingRematches s gid of
          None \<Rightarrow> None
        | Some r \<Rightarrow> if now - timestamp r > 60000 then None else Some r)\<rparr>"

definition sweepGames :: "int \<Rightarrow> server \<Rightarrow> server" where
  "sweepGames now s =
     s\<lparr>games := (\<lambda>gid. case games s gid of
          None \<Rightarrow> None
        | Some g \<Rightarrow> if now - createdAt g > 60 * 60 * 1000 then None else Some g)\<rparr>"

section \<open>The server as a transition system\<close>

datatype event =
  SetPlayerName conn string
  | CreateGame conn string int
  | JoinGame conn string
  | MakeMove conn string int string int
  | RequestRematch conn string int
  | AcceptRematch conn string string int
  | DeclineRematch conn string
  | LeaveGame conn string
  | Disconnect conn
  | RemoveGame string
  | SweepRematches int
  | SweepGames int

fun apply_event :: "event \<Rightarrow> server \<Rightarrow> server" where
  "apply_event (SetPlayerName sock nm) s = snd (setPlayerName sock nm s)"
| "apply_event (CreateGame sock newId now) s = snd (createGame sock newId now s)"
| "apply_event (JoinGame sock gid) s = snd (joinGame sock gid s)"
| "apply_event (MakeMove sock gid col color now) s = snd (makeMove sock gid col color now s)"
| "apply_event (RequestRematch sock gid now) s = snd (requestRematch sock gid now s)"
| "apply_event (AcceptRematch sock gid newId now) s = snd (acceptRematch sock gid newId now s)"
| "apply_event (DeclineRematch sock gid) s = snd (declineRematch sock gid s)"
| "apply_event (LeaveGame sock gid) s = snd (leaveGame sock gid s)"
| "apply_event (Disconnect sock) s = snd (disconnect sock s)"
| "apply_event (RemoveGame gid) s = removeGame gid s"
| "apply_event (SweepRematches now) s = sweepRematches now s"
| "apply_event (SweepGames now) s = sweepGames now s"

definition initial :: server where
  "initial = \<lparr>games = Map.empty, playerStats = Map.empty, playerNames = Map.empty,
              pendingRematches = Map.empty\<rparr>"

definition run :: "event list \<Rightarrow> server" where
  "run es = foldl (\<lambda>s e. apply_event e s) initial es"

inductive reachable :: "server \<Rightarrow> bool" where
  reachable_initial: "reachable initial"
| reachable_step: "reachable s \<Longrightarrow> reachable (apply_event e s)"

section \<open>Properties of boards\<close>

text \<open>
  A well-formed board has 6 rows of 7 cells; \<open>filled\<close> counts its non-empty cells.
\<close>

definition wf_board :: "board \<Rightarrow> bool" where
  "wf_board b = (length b = 6 \<and> list_all (\<lambda>row. length row = 7) b)"

definition filled :: "board \<Rightarrow> nat" where
  "filled b = sum_list (map (\<lambda>row. length (filter (\<lambda>cell. cell \<noteq> []) row)) b)"

text \<open>
  Four in a line, in the words of the specification: the cell \<open>(r, c)\<close> holds the
  colour when it lies on the board and carries that colour; a window is four consecutive
  cells along an axis, the \<open>k\<close>-th of which is \<open>(row, col)\<close>; and
  \<open>four_in_line\<close> says that some window on one of the four axes through
  \<open>(row, col)\<close> holds the colour throughout.
\<close>

definition holds :: "board \<Rightarrow> string \<Rightarrow> int \<Rightarrow> int \<Rightarrow> bool" where
  "holds b player r c = (0 \<le> r \<and> r < 6 \<and> 0 \<le> c \<and> c < 7 \<and> cellAt b r c = Some player)"

definition window :: "board \<Rightarrow> string \<Rightarrow> int \<Rightarrow> int \<Rightarrow> int \<times> int \<Rightarrow> int \<Rightarrow> bool" where
  "window b player row col d k =
     list_all (\<lambda>i. holds b player (row + (i - k) * fst d) (col + (i - k) * snd d)) [0, 1, 2, 3]"

definition axes :: "(int \<times> int) list" where
  "axes = [(0, 1), (1, 0), (1, 1), (1, -1)]"

definition four_in_line :: "board \<Rightarrow> string \<Rightarrow> int \<Rightarrow> int \<Rightarrow> bool" where
  "four_in_line b player row col =
     list_ex (\<lambda>d. list_ex (\<lambda>k. window b player row col d k) [0, 1, 2, 3]) axes"

section \<open>Invariants of sessions\<close>

text \<open>
  What holds of every session of a reachable state of the model (where every column is
  an integer): the board is well formed, the
  turn is red or yellow, \<open>moves\<close> counts the discs, a waiting session has no yellow
  seat and no winner, a finished session has a winner and both seats, an abandoned session
  has a winner, and the series of a session with a yellow seat has its stats.
\<close>

definition game_inv :: "server \<Rightarrow> game \<Rightarrow> bool" where
  "game_inv s g =
     (wf_board (board g)
      \<and> (currentPlayer g = ''red'' \<or> currentPlayer g = ''yellow'')
      \<and> moves g = int (filled (board g))
      \<and> (status g = Waiting \<longrightarrow> yellow (players g) = None \<and> winner g = None)
      \<and> (status g = Finished \<longrightarrow> truthy (winner g) \<and> truthy (red (players g)) \<and> truthy (yellow (players g)))
      \<and> (status g = Abandoned \<longrightarrow> truthy (winner g))
      \<and> (yellow (players g) \<noteq> None \<longrightarrow> playerStats s (originalGameId g) \<noteq> None))"

definition server_inv :: "server \<Rightarrow> bool" where
  "server_inv s = (\<forall>gid g. games s gid = Some g \<longrightarrow> game_inv s g)"

text \<open>
  The session object as an accepted \<open>makeMove\<close> leaves it (the tail of the handler,
  read on the session alone).
\<close>

definition moved :: "game \<Rightarrow> int \<Rightarrow> string \<Rightarrow> int \<Rightarrow> game" where
  "moved g col color now =
     (let row = findRow (board g) col 5;
          g1 = placeDisc g row col color now
      in if checkWin row col (board g1) color
           then g1\<lparr>winner := Some color,
                   winningCells := getWinningCells row col (board g1) color,
                   status := Finished\<rparr>
         else if isBoardFull (board g1) then g1\<lparr>winner := Some ''draw'', status := Finished\<rparr>
         else g1\<lparr>currentPlayer := (if color = ''red'' then ''yellow'' else ''red'')\<rparr>)"

text \<open>The six grounds on which \<open>makeMove\<close> refuses a move.\<close>

definition rejects :: "string \<Rightarrow> int \<Rightarrow> string \<Rightarrow> server \<Rightarrow> bool" where
  "rejects gid col color s =
     (case games s gid of
        None \<Rightarrow> True
      | Some g \<Rightarrow> truthy (winner g) \<or> currentPlayer g \<noteq> color
          \<or> \<not> truthy (red (players g)) \<or> \<not> truthy (yellow (players g))
          \<or> col < 0 \<or> col > 6 \<or> findRow (board g) col 5 = -1)"

text \<open>
  The status changes that the handlers make: none, waiting to playing, playing to
  finished, anything to abandoned, and abandoned back to playing.
\<close>

definition step_ok :: "status \<Rightarrow> status \<Rightarrow> bool" where
  "step_ok a b = (a = b \<or> (a = Waiting \<and> b = Playing) \<or> (a = Playing \<and> b = Finished)
                  \<or> b = Abandoned \<or> (a = Abandoned \<and> b = Playing))"

text \<open>The session id that an event allocates with \<open>generateGameId\<close>, if any.\<close>

fun allocated :: "event \<Rightarrow> string option" where
  "allocated (CreateGame sock newId now) = Some newId"
| "allocated (AcceptRematch sock gid newId now) = Some newId"
| "allocated e = None"

section \<open>Concrete runs\<close>

text \<open>
  Runs of the server from its initial state. In \<open>two_seated\<close> a game has both
  seats and no move. In \<open>red_three\<close> red has dropped in columns 0, 2 and 3 and
  yellow three times in column 6; \<open>red_won\<close> adds red's disc in column 1, which
  completes the bottom row, and \<open>won_board\<close> is the board then.
  In \<open>left_open\<close> yellow has left the game, in \<open>rejoined\<close> another
  connection has taken the yellow seat before the session was removed. In \<open>asked\<close>
  red has requested a rematch.
\<close>

definition two_seated :: server where
  "two_seated = run [CreateGame ''a1'' ''G1'' 10, JoinGame ''b2'' ''G1'']"

definition red_three :: server where
  "red_three = run [CreateGame ''a1'' ''G1'' 10, JoinGame ''b2'' ''G1'',
     MakeMove ''a1'' ''G1'' 0 ''red'' 11, MakeMove ''b2'' ''G1'' 6 ''yellow'' 12,
     MakeMove ''a1'' ''G1'' 2 ''red'' 13, MakeMove ''b2'' ''G1'' 6 ''yellow'' 14,
     MakeMove ''a1'' ''G1'' 3 ''red'' 15, MakeMove ''b2'' ''G1'' 6 ''yellow'' 16]"

definition red_won :: server where
  "red_won = apply_event (MakeMove ''a1'' ''G1'' 1 ''red'' 17) red_three"

definition won_board :: board where
  "won_board = [replicate 7 [], replicate 7 [], replicate 7 [],
         [[], [], [], [], [], [], ''yellow''],
         [[], [], [], [], [], [], ''yellow''],
         [''red'', ''red'', ''red'', ''red'', [], [], ''yellow'']]"

definition left_open :: server where
  "left_open = run [CreateGame ''a1'' ''G1'' 10, JoinGame ''b2'' ''G1'', LeaveGame ''b2'' ''G1'']"

definition rejoined :: server where
  "rejoined = apply_event (JoinGame ''c3'' ''G1'') left_open"

definition asked :: server where
  "asked = run [CreateGame ''a1'' ''G1'' 10, JoinGame ''b2'' ''G1'', RequestRematch ''a1'' ''G1'' 20]"

section \<open>Board lemmas\<close>

lemma wf_emptyBoard: "wf_board emptyBoard"
  by (simp add: wf_board_def emptyBoard_def list_all_iff)

lemma filled_emptyBoard: "filled emptyBoard = 0"
  by (simp add: filled_def emptyBoard_def)

lemma row_fill:
  "j < length row \<Longrightarrow> row ! j = [] \<Longrightarrow> v \<noteq> [] \<Longrightarrow>
   length (filter (\<lambda>cell. cell \<noteq> []) (row[j := v])) = Suc (length (filter (\<lambda>cell. cell \<noteq> []) row))"
proof (induction row arbitrary: j)
  case Nil
  then show ?case by simp
next
  case (Cons x xs)
  then show ?case by (cases j) auto
qed

lemma sum_list_map_update:
  "i < length xs \<Longrightarrow>
   sum_list (map f (xs[i := y])) + f (xs ! i) = sum_list (map f xs) + (f y :: nat)"
proof (induction xs arbitrary: i)
  case Nil
  then show ?case by simp
next
  case (Cons x xs)
  then show ?case by (cases i) auto
qed

lemma wf_board_row: "wf_board b \<Longrightarrow> i < 6 \<Longrightarrow> length (b ! i) = 7"
  by (simp add: wf_board_def list_all_length)

lemma cellAt_wf:
  "wf_board b \<Longrightarrow> 0 \<le> r \<Longrightarrow> r < 6 \<Longrightarrow> 0 \<le> c \<Longrightarrow> c < 7 \<Longrightarrow> cellAt b r c = Some (b ! nat r ! nat c)"
  by (simp add: cellAt_def wf_board_def list_all_length)

lemma findRow_range: "findRow b col n \<noteq> -1 \<Longrightarrow> 0 \<le> findRow b col n \<and> findRow b col n \<le> int n"
  by (induction n) (auto split: if_splits)

lemma findRow_falsy: "findRow b col n \<noteq> -1 \<Longrightarrow> \<not> truthy (cellAt b (findRow b col n) col)"
  by (induction n) (auto split: if_splits)

lemma findRow_empty:
  assumes "wf_board b" "0 \<le> col" "col \<le> 6" "findRow b col 5 \<noteq> -1"
  shows "b ! nat (findRow b col 5) ! nat col = []"
proof -
  from assms(4) have r: "0 \<le> findRow b col 5" "findRow b col 5 < 6"
    using findRow_range [of b col 5] by auto
  from assms(4) have "\<not> truthy (cellAt b (findRow b col 5) col)" by (rule findRow_falsy)
  with cellAt_wf [OF assms(1) r(1) r(2), of col] assms(2,3)
  show ?thesis by (simp add: truthy_def)
qed

lemma wf_setCell: "wf_board b \<Longrightarrow> 0 \<le> r \<Longrightarrow> r < 6 \<Longrightarrow> wf_board (setCell b r c v)"
  by (auto simp: wf_board_def setCell_def list_all_length nth_list_update)

lemma filled_setCell:
  assumes "wf_board b" "0 \<le> r" "r < 6" "0 \<le> c" "c \<le> 6" "b ! nat r ! nat c = []" "v \<noteq> []"
  shows "filled (setCell b r c v) = Suc (filled b)"
proof -
  let ?f = "\<lambda>row. length (filter (\<lambda>cell. cell \<noteq> []) row)"
  from assms have i: "nat r < length b" by (simp add: wf_board_def)
  from assms have j: "nat c < length (b ! nat r)" using wf_board_row [of b "nat r"] by simp
  have "sum_list (map ?f (b[nat r := (b ! nat r)[nat c := v]])) + ?f (b ! nat r)
        = sum_list (map ?f b) + ?f ((b ! nat r)[nat c := v])"
    using i by (rule sum_list_map_update)
  moreover have "?f ((b ! nat r)[nat c := v]) = Suc (?f (b ! nat r))"
    using j assms(6,7) by (rule row_fill)
  ultimately show ?thesis by (simp add: filled_def setCell_def)
qed

section \<open>The walk and four in a line\<close>

lemma walk_step:
  "dx \<noteq> 0 \<or> dy \<noteq> 0 \<Longrightarrow>
   walk b p r c dx dy = (if holds b p r c then (r, c) # walk b p (r + dx) (c + dy) dx dy else [])"
  by (subst walk.simps) (simp add: holds_def)

lemma walk_ge1: "dx \<noteq> 0 \<or> dy \<noteq> 0 \<Longrightarrow> (1 \<le> length (walk b p r c dx dy)) = holds b p r c"
  by (subst walk_step) auto

lemma walk_ge2:
  "dx \<noteq> 0 \<or> dy \<noteq> 0 \<Longrightarrow>
   (2 \<le> length (walk b p r c dx dy)) = (holds b p r c \<and> holds b p (r + dx) (c + dy))"
  using walk_ge1 [of dx dy b p "r + dx" "c + dy"]
  by (subst walk_step) auto

lemma walk_ge3:
  "dx \<noteq> 0 \<or> dy \<noteq> 0 \<Longrightarrow>
   (3 \<le> length (walk b p r c dx dy)) =
     (holds b p r c \<and> holds b p (r + dx) (c + dy) \<and> holds b p (r + dx + dx) (c + dy + dy))"
  using walk_ge2 [of dx dy b p "r + dx" "c + dy"]
  by (subst walk_step) auto

lemma three_split:
  "(3 \<le> m + (n::nat)) = (3 \<le> m \<or> (2 \<le> m \<and> 1 \<le> n) \<or> (1 \<le> m \<and> 2 \<le> n) \<or> 3 \<le> n)"
  by arith

lemma collect_axis:
  assumes d: "dx \<noteq> 0 \<or> dy \<noteq> 0" and h: "holds b p row col"
  shows "(4 \<le> length (collect row col b p ((dx, dy), (- dx, - dy))))
         = list_ex (\<lambda>k. window b p row col (dx, dy) k) [0, 1, 2, 3]"
proof -
  from d have d': "- dx \<noteq> 0 \<or> - dy \<noteq> 0" by simp
  have "(4 \<le> length (collect row col b p ((dx, dy), (- dx, - dy))))
        = (3 \<le> length (walk b p (row + dx) (col + dy) dx dy)
               + length (walk b p (row + - dx) (col + - dy) (- dx) (- dy)))"
    by (simp add: collect_def)
  also have "\<dots> = list_ex (\<lambda>k. window b p row col (dx, dy) k) [0, 1, 2, 3]"
    unfolding three_split walk_ge1 [OF d] walk_ge2 [OF d] walk_ge3 [OF d]
      walk_ge1 [OF d'] walk_ge2 [OF d'] walk_ge3 [OF d']
    using h by (auto simp: window_def algebra_simps)
  finally show ?thesis .
qed

lemma checkWin_axes:
  assumes "holds b p row col"
  shows "checkWin row col b p = four_in_line b p row col"
proof -
  have a: "(4 \<le> length (collect row col b p ((0, 1), (0, -1))))
           = list_ex (\<lambda>k. window b p row col (0, 1) k) [0, 1, 2, 3]"
    using collect_axis [of 0 1 b p row col] assms by simp
  have b: "(4 \<le> length (collect row col b p ((1, 0), (-1, 0))))
           = list_ex (\<lambda>k. window b p row col (1, 0) k) [0, 1, 2, 3]"
    using collect_axis [of 1 0 b p row col] assms by simp
  have c: "(4 \<le> length (collect row col b p ((1, 1), (-1, -1))))
           = list_ex (\<lambda>k. window b p row col (1, 1) k) [0, 1, 2, 3]"
    using collect_axis [of 1 1 b p row col] assms by simp
  have d: "(4 \<le> length (collect row col b p ((1, -1), (-1, 1))))
           = list_ex (\<lambda>k. window b p row col (1, -1) k) [0, 1, 2, 3]"
    using collect_axis [of 1 "-1" b p row col] assms by simp
  show ?thesis
    unfolding checkWin_def dirs_def four_in_line_def axes_def
    by (simp add: a b c d)
qed

section \<open>The invariant is kept by every event\<close>

lemma game_inv_stats_mono:
  "game_inv s g \<Longrightarrow> (\<And>x. playerStats s x \<noteq> None \<Longrightarrow> playerStats s' x \<noteq> None) \<Longrightarrow> game_inv s' g"
  by (auto simp: game_inv_def)

lemma updatePlayerStats_games [simp]: "games (updatePlayerStats gid w s) = games s"
  by (simp add: updatePlayerStats_def Let_def split: option.splits)

lemma initializePlayerStats_games [simp]: "games (initializePlayerStats gid a b c d s) = games s"
  by (simp add: initializePlayerStats_def split: option.splits)

lemma initializePlayerStats_keeps:
  "playerStats s x \<noteq> None \<Longrightarrow> playerStats (initializePlayerStats gid a b c d s) x \<noteq> None"
  by (simp add: initializePlayerStats_def split: option.splits)

lemma initializePlayerStats_there:
  "playerStats (initializePlayerStats gid a b c d s) gid \<noteq> None"
  by (simp add: initializePlayerStats_def split: option.splits)

lemma inv_setPlayerName: "server_inv s \<Longrightarrow> server_inv (snd (setPlayerName sock nm s))"
  by (auto simp: server_inv_def setPlayerName_def game_inv_def)

lemma inv_createGame: "server_inv s \<Longrightarrow> server_inv (snd (createGame sock newId now s))"
  by (auto simp: server_inv_def createGame_def game_inv_def wf_emptyBoard filled_emptyBoard)

lemma inv_joinGame:
  assumes "server_inv s"
  shows "server_inv (snd (joinGame sock gid s))"
proof (cases "games s gid")
  case None
  with assms show ?thesis by (simp add: joinGame_def)
next
  case (Some g)
  show ?thesis
  proof (cases "truthy (yellow (players g))")
    case True
    with Some assms show ?thesis by (simp add: joinGame_def)
  next
    case False
    let ?g1 = "g\<lparr>players := (players g)\<lparr>yellow := Some sock, yellowName := Some (nameOf s sock)\<rparr>,
                   status := Playing\<rparr>"
    let ?s1 = "s\<lparr>games := (games s)(gid \<mapsto> ?g1)\<rparr>"
    let ?s2 = "initializePlayerStats (originalGameId g) (red (players g)) (Some sock)
                 (redName (players g)) (Some (nameOf s sock)) ?s1"
    have eq: "snd (joinGame sock gid s) = ?s2"
      using Some False by (simp add: joinGame_def Let_def)
    have keep: "\<And>x. playerStats s x \<noteq> None \<Longrightarrow> playerStats ?s2 x \<noteq> None"
      by (rule initializePlayerStats_keeps) simp
    from assms Some have g: "game_inv s g" by (simp add: server_inv_def)
    have new: "game_inv ?s2 ?g1"
      using g initializePlayerStats_there [of "originalGameId g" _ _ _ _ ?s1]
      by (simp add: game_inv_def)
    show ?thesis
      unfolding eq server_inv_def
    proof (intro allI impI)
      fix k h assume h: "games ?s2 k = Some h"
      show "game_inv ?s2 h"
      proof (cases "k = gid")
        case True
        with h new show ?thesis by simp
      next
        case False
        with h have "games s k = Some h" by simp
        with assms have "game_inv s h" by (simp add: server_inv_def)
        then show ?thesis using keep by (rule game_inv_stats_mono)
      qed
    qed
  qed
qed

lemma makeMove_accepted:
  assumes "fst (makeMove sock gid col color now s) = None"
  shows "\<exists>g. games s gid = Some g \<and> \<not> truthy (winner g) \<and> currentPlayer g = color
    \<and> truthy (red (players g)) \<and> truthy (yellow (players g)) \<and> 0 \<le> col \<and> col \<le> 6
    \<and> findRow (board g) col 5 \<noteq> -1
    \<and> games (snd (makeMove sock gid col color now s)) = (games s)(gid \<mapsto> moved g col color now)"
proof (cases "games s gid")
  case None
  with assms show ?thesis by (simp add: makeMove_def)
next
  case (Some g)
  from assms Some have c: "\<not> truthy (winner g)" "currentPlayer g = color"
    "truthy (red (players g))" "truthy (yellow (players g))" "0 \<le> col" "col \<le> 6"
    "findRow (board g) col 5 \<noteq> -1"
    by (auto simp: makeMove_def Let_def split: if_splits)
  have "games (snd (makeMove sock gid col color now s)) = (games s)(gid \<mapsto> moved g col color now)"
    using Some c by (simp add: makeMove_def moved_def Let_def)
  with Some c show ?thesis by simp
qed

lemma makeMove_stats_keep:
  "playerStats s x \<noteq> None \<Longrightarrow> playerStats (snd (makeMove sock gid col color now s)) x \<noteq> None"
  by (auto simp: makeMove_def Let_def updatePlayerStats_def split: option.splits)

lemma makeMove_error_keeps_state:
  "fst (makeMove sock gid col color now s) \<noteq> None \<Longrightarrow> snd (makeMove sock gid col color now s) = s"
  by (auto simp: makeMove_def Let_def split: option.splits if_splits)

lemma moved_inv:
  assumes g: "game_inv s g" and w: "\<not> truthy (winner g)"
    and seats: "truthy (red (players g))" "truthy (yellow (players g))"
    and col: "0 \<le> col" "col \<le> 6" and row: "findRow (board g) col 5 \<noteq> -1"
  shows "game_inv s (moved g (col) (currentPlayer g) now)"
proof -
  let ?row = "findRow (board g) col 5"
  let ?color = "currentPlayer g"
  let ?b = "setCell (board g) ?row col ?color"
  from g have wf: "wf_board (board g)" and cp: "?color = ''red'' \<or> ?color = ''yellow''"
    and mv: "moves g = int (filled (board g))"
    by (simp_all add: game_inv_def)
  from row have rng: "0 \<le> ?row" "?row < 6" using findRow_range [of "board g" col 5] by auto
  have e: "board g ! nat ?row ! nat col = []" using wf col row by (rule findRow_empty)
  from cp have ne: "?color \<noteq> []" by auto
  have wf': "wf_board ?b" using wf rng by (rule wf_setCell)
  have f': "filled ?b = Suc (filled (board g))"
    using wf rng col e ne by (rule filled_setCell)
  from g w have st: "status g \<noteq> Finished" "status g \<noteq> Abandoned" by (auto simp: game_inv_def)
  from g seats have st2: "status g \<noteq> Waiting" by (auto simp: game_inv_def truthy_def)
  from g seats have ps: "playerStats s (originalGameId g) \<noteq> None"
    by (auto simp: game_inv_def truthy_def)
  show ?thesis
    using wf' f' mv cp st st2 ps seats ne
    by (simp add: moved_def Let_def placeDisc_def game_inv_def truthy_def)
qed

lemma inv_makeMove:
  assumes "server_inv s"
  shows "server_inv (snd (makeMove sock gid col color now s))"
proof (cases "fst (makeMove sock gid col color now s)")
  case (Some e)
  then have "snd (makeMove sock gid col color now s) = s"
    by (simp add: makeMove_error_keeps_state)
  with assms show ?thesis by simp
next
  case None
  let ?s' = "snd (makeMove sock gid col color now s)"
  from makeMove_accepted [OF None]
  obtain g where a: "games s gid = Some g" "\<not> truthy (winner g)" "currentPlayer g = color"
    "truthy (red (players g))" "truthy (yellow (players g))" "0 \<le> col" "col \<le> 6"
    "findRow (board g) col 5 \<noteq> -1"
    "games ?s' = (games s)(gid \<mapsto> moved g col color now)"
    by blast
  from assms a(1) have g: "game_inv s g" by (simp add: server_inv_def)
  have new: "game_inv s (moved g col color now)"
    using moved_inv [OF g a(2) a(4) a(5) a(6) a(7) a(8)] a(3) by simp
  show ?thesis
    unfolding server_inv_def
  proof (intro allI impI)
    fix k h assume h: "games ?s' k = Some h"
    have "game_inv s h"
    proof (cases "k = gid")
      case True
      with h a(9) new show ?thesis by simp
    next
      case False
      with h a(9) have "games s k = Some h" by simp
      with assms show ?thesis by (simp add: server_inv_def)
    qed
    then show "game_inv ?s' h" by (rule game_inv_stats_mono) (rule makeMove_stats_keep)
  qed
qed

lemma inv_requestRematch: "server_inv s \<Longrightarrow> server_inv (snd (requestRematch sock gid now s))"
  by (auto simp: server_inv_def requestRematch_def game_inv_def Let_def split: option.splits)

lemma inv_declineRematch: "server_inv s \<Longrightarrow> server_inv (snd (declineRematch sock gid s))"
  by (auto simp: server_inv_def declineRematch_def game_inv_def split: option.splits)

lemma inv_acceptRematch: "server_inv s \<Longrightarrow> server_inv (snd (acceptRematch sock gid newId now s))"
  by (auto simp: server_inv_def acceptRematch_def game_inv_def Let_def wf_emptyBoard filled_emptyBoard
      split: option.splits if_splits)

lemma vacate_inv: "game_inv s g \<Longrightarrow> game_inv s (vacate sock g)"
  by (auto simp: game_inv_def vacate_def truthy_def)

lemma inv_leaveGame: "server_inv s \<Longrightarrow> server_inv (snd (leaveGame sock gid s))"
proof -
  assume a: "server_inv s"
  have "\<And>s' g. game_inv s g \<Longrightarrow> playerStats s' = playerStats s \<Longrightarrow> game_inv s' g"
    by (simp add: game_inv_def)
  with a show ?thesis
    by (auto simp: server_inv_def leaveGame_def vacate_inv split: option.splits if_splits)
qed

lemma inv_disconnect: "server_inv s \<Longrightarrow> server_inv (snd (disconnect sock s))"
proof -
  assume a: "server_inv s"
  have "\<And>s' g. game_inv s g \<Longrightarrow> playerStats s' = playerStats s \<Longrightarrow> game_inv s' g"
    by (simp add: game_inv_def)
  with a show ?thesis
    by (auto simp: server_inv_def disconnect_def vacate_inv split: option.splits if_splits)
qed

lemma inv_timers:
  "server_inv s \<Longrightarrow> server_inv (removeGame gid s)"
  "server_inv s \<Longrightarrow> server_inv (sweepRematches now s)"
  "server_inv s \<Longrightarrow> server_inv (sweepGames now s)"
  by (auto simp: server_inv_def removeGame_def sweepRematches_def sweepGames_def game_inv_def
      split: option.splits if_splits)

lemma inv_apply_event: "server_inv s \<Longrightarrow> server_inv (apply_event e s)"
  by (cases e)
    (simp_all add: inv_setPlayerName inv_createGame inv_joinGame inv_makeMove inv_requestRematch
      inv_acceptRematch inv_declineRematch inv_leaveGame inv_disconnect inv_timers)

lemma reachable_inv: "reachable s \<Longrightarrow> server_inv s"
proof (induction rule: reachable.induct)
  case reachable_initial
  show ?case by (simp add: server_inv_def initial_def)
next
  case (reachable_step s e)
  then show ?case by (simp add: inv_apply_event)
qed

section \<open>What an event does to one session\<close>

lemma vacate_other: "\<not> seated sock g \<Longrightarrow> vacate sock g = g"
  by (simp add: vacate_def seated_def)

lemma vacate_seated:
  "seated sock g \<Longrightarrow> status (vacate sock g) = Abandoned
     \<and> winner (vacate sock g) = Some (if red (players g) = Some sock then ''yellow'' else ''red'')"
  by (auto simp: vacate_def seated_def)

lemma moved_status:
  "status (moved g col color now) = status g \<or> status (moved g col color now) = Finished"
  by (simp add: moved_def Let_def placeDisc_def)

lemma moved_board: "board (moved g col color now) = setCell (board g) (findRow (board g) col 5) col color"
  by (simp add: moved_def Let_def placeDisc_def)

lemma moved_moves: "moves (moved g col color now) = moves g + 1"
  by (simp add: moved_def Let_def placeDisc_def)

lemma moved_terminal:
  assumes "checkWin (findRow (board g) col 5) col (setCell (board g) (findRow (board g) col 5) col color) color
           \<or> isBoardFull (setCell (board g) (findRow (board g) col 5) col color)"
  shows "status (moved g col color now) = Finished \<and> currentPlayer (moved g col color now) = currentPlayer g"
  using assms by (auto simp: moved_def Let_def placeDisc_def)

lemma moved_open:
  assumes "\<not> checkWin (findRow (board g) col 5) col (setCell (board g) (findRow (board g) col 5) col color) color"
    and "\<not> isBoardFull (setCell (board g) (findRow (board g) col 5) col color)"
  shows "status (moved g col color now) = status g
         \<and> currentPlayer (moved g col color now) = (if color = ''red'' then ''yellow'' else ''red'')"
  using assms by (simp add: moved_def Let_def placeDisc_def)

lemma joinGame_effect:
  assumes "games s gid = Some g" "games (snd (joinGame sock k s)) gid = Some g'"
  shows "g' = g \<or> (\<not> truthy (yellow (players g)) \<and> status g' = Playing \<and> winner g' = winner g)"
  using assms by (auto simp: joinGame_def Let_def split: option.splits if_splits)

lemma makeMove_effect:
  assumes "games s gid = Some g" "games (snd (makeMove sock k col color now s)) gid = Some g'"
  shows "g' = g \<or> (\<not> truthy (winner g) \<and> truthy (red (players g)) \<and> truthy (yellow (players g))
                     \<and> g' = moved g col color now)"
proof (cases "fst (makeMove sock k col color now s)")
  case (Some e)
  then have "snd (makeMove sock k col color now s) = s" by (simp add: makeMove_error_keeps_state)
  with assms show ?thesis by simp
next
  case None
  from makeMove_accepted [OF None] assms show ?thesis
    by (cases "k = gid") auto
qed

lemma leaveGame_effect:
  assumes "games s gid = Some g" "games (snd (leaveGame sock k s)) gid = Some g'"
  shows "g' = g \<or> (k = gid \<and> g' = vacate sock g)"
  using assms by (auto simp: leaveGame_def split: option.splits if_splits)

lemma disconnect_effect:
  assumes "games s gid = Some g" "games (snd (disconnect sock s)) gid = Some g'"
  shows "g' = g \<or> (seated sock g \<and> g' = vacate sock g)"
  using assms by (auto simp: disconnect_def split: option.splits if_splits)

lemma quiet_effect:
  assumes "games s gid = Some g"
  shows "games (snd (setPlayerName sock nm s)) gid = Some g' \<Longrightarrow> g' = g"
    and "games (snd (requestRematch sock k now s)) gid = Some g' \<Longrightarrow> g' = g"
    and "games (snd (declineRematch sock k s)) gid = Some g' \<Longrightarrow> g' = g"
    and "games (removeGame k s) gid = Some g' \<Longrightarrow> g' = g"
    and "games (sweepRematches now s) gid = Some g' \<Longrightarrow> g' = g"
    and "games (sweepGames now s) gid = Some g' \<Longrightarrow> g' = g"
    and "newId \<noteq> gid \<Longrightarrow> games (snd (createGame sock newId now s)) gid = Some g' \<Longrightarrow> g' = g"
    and "newId \<noteq> gid \<Longrightarrow> games (snd (acceptRematch sock k newId now s)) gid = Some g' \<Longrightarrow> g' = g"
  using assms
  by (auto simp: setPlayerName_def requestRematch_def declineRematch_def removeGame_def
      sweepRematches_def sweepGames_def createGame_def acceptRematch_def Let_def
      split: option.splits if_splits)

lemma event_effect:
  assumes inv: "game_inv s g" and g: "games s gid = Some g"
    and fresh: "allocated e \<noteq> Some gid" and g': "games (apply_event e s) gid = Some g'"
  shows "g' = g
    \<or> (\<exists>sock. e = JoinGame sock gid \<and> \<not> truthy (yellow (players g)) \<and> status g \<noteq> Finished
          \<and> status g' = Playing \<and> winner g' = winner g)
    \<or> (\<exists>sock col color now. e = MakeMove sock gid col color now \<and> \<not> truthy (winner g)
          \<and> status g = Playing \<and> g' = moved g col color now)
    \<or> (\<exists>sock. (e = LeaveGame sock gid \<or> e = Disconnect sock) \<and> seated sock g \<and> g' = vacate sock g)"
proof (cases e)
  case (JoinGame sock k)
  with g g' have "g' = g \<or> (\<not> truthy (yellow (players g)) \<and> status g' = Playing \<and> winner g' = winner g)"
    using joinGame_effect [of s gid g sock k g'] by simp
  moreover have "k \<noteq> gid \<Longrightarrow> g' = g"
    using g g' JoinGame by (auto simp: joinGame_def Let_def split: option.splits if_splits)
  moreover have "\<not> truthy (yellow (players g)) \<Longrightarrow> status g \<noteq> Finished"
    using inv by (auto simp: game_inv_def)
  ultimately show ?thesis using JoinGame by auto
next
  case (MakeMove sock k col color now)
  with g g' have m: "g' = g \<or> (\<not> truthy (winner g) \<and> truthy (red (players g)) \<and> truthy (yellow (players g))
                     \<and> g' = moved g col color now)"
    using makeMove_effect [of s gid g sock k col color now g'] by simp
  have "k \<noteq> gid \<Longrightarrow> g' = g"
  proof (cases "fst (makeMove sock k col color now s)")
    case (Some e)
    assume "k \<noteq> gid"
    from Some have "snd (makeMove sock k col color now s) = s" by (simp add: makeMove_error_keeps_state)
    with g g' MakeMove show ?thesis by simp
  next
    case None
    assume "k \<noteq> gid"
    with makeMove_accepted [OF None] g g' MakeMove show ?thesis by auto
  qed
  moreover have "\<not> truthy (winner g) \<Longrightarrow> truthy (yellow (players g)) \<Longrightarrow> status g = Playing"
    using inv by (cases "status g") (auto simp: game_inv_def truthy_def)
  ultimately show ?thesis using m MakeMove by auto
next
  case (LeaveGame sock k)
  with g g' have "g' = g \<or> (k = gid \<and> g' = vacate sock g)"
    using leaveGame_effect [of s gid g sock k g'] by simp
  then show ?thesis using LeaveGame vacate_other [of sock g] by auto
next
  case (Disconnect sock)
  with g g' have "g' = g \<or> (seated sock g \<and> g' = vacate sock g)"
    using disconnect_effect [of s gid g sock g'] by simp
  then show ?thesis using Disconnect by auto
next
  case (SetPlayerName sock nm)
  with g g' quiet_effect(1) [OF g] show ?thesis by simp
next
  case (CreateGame sock newId now)
  with g g' fresh quiet_effect(7) [OF g] show ?thesis by simp
next
  case (RequestRematch sock k now)
  with g g' quiet_effect(2) [OF g] show ?thesis by simp
next
  case (AcceptRematch sock k newId now)
  with g g' fresh quiet_effect(8) [OF g] show ?thesis by simp
next
  case (DeclineRematch sock k)
  with g g' quiet_effect(3) [OF g] show ?thesis by simp
next
  case (RemoveGame k)
  with g g' quiet_effect(4) [OF g] show ?thesis by simp
next
  case (SweepRematches now)
  with g g' quiet_effect(5) [OF g] show ?thesis by simp
next
  case (SweepGames now)
  with g g' quiet_effect(6) [OF g] show ?thesis by simp
qed

lemma makeMove_stats_win:
  assumes "games s gid = Some g" and "fst (makeMove sock gid col color now s) = None"
    and "checkWin (findRow (board g) col 5) col (setCell (board g) (findRow (board g) col 5) col color) color"
  shows "playerStats (snd (makeMove sock gid col color now s))
         = playerStats (updatePlayerStats (originalGameId g) color s)"
  using assms
  by (auto simp: makeMove_def Let_def placeDisc_def updatePlayerStats_def split: option.splits if_splits)

lemma makeMove_stats_other:
  assumes "games s gid = Some g" and "fst (makeMove sock gid col color now s) = None"
    and "\<not> checkWin (findRow (board g) col 5) col (setCell (board g) (findRow (board g) col 5) col color) color"
  shows "playerStats (snd (makeMove sock gid col color now s)) = playerStats s"
  using assms
  by (auto simp: makeMove_def Let_def placeDisc_def split: option.splits if_splits)

lemma updatePlayerStats_red:
  "playerStats s k = Some st \<Longrightarrow>
   \<exists>st'. playerStats (updatePlayerStats k ''red'' s) k = Some st'
      \<and> gamesPlayed st' = gamesPlayed st + 1
      \<and> wins (redStats st') = wins (redStats st) + 1 \<and> yellowStats st' = yellowStats st"
  by (simp add: updatePlayerStats_def Let_def)

lemma updatePlayerStats_yellow:
  "playerStats s k = Some st \<Longrightarrow>
   \<exists>st'. playerStats (updatePlayerStats k ''yellow'' s) k = Some st'
      \<and> gamesPlayed st' = gamesPlayed st + 1
      \<and> wins (yellowStats st') = wins (yellowStats st) + 1 \<and> redStats st' = redStats st"
  by (simp add: updatePlayerStats_def Let_def)

text \<open>
  The one call of \<open>checkWin\<close>, in \<open>makeMove\<close>, comes after the write of the
  disc: the cell it is given holds the colour it is given.
\<close>

lemma cellAt_setCell:
  "wf_board b \<Longrightarrow> 0 \<le> r \<Longrightarrow> r < 6 \<Longrightarrow> 0 \<le> c \<Longrightarrow> c < 7 \<Longrightarrow> cellAt (setCell b r c v) r c = Some v"
  by (simp add: cellAt_def setCell_def wf_board_def list_all_length)

lemma placed_cell_holds:
  assumes "reachable s" and "games s gid = Some g"
    and "fst (makeMove sock gid col color now s) = None"
  shows "holds (setCell (board g) (findRow (board g) col 5) col color) color
           (findRow (board g) col 5) col"
proof -
  from assms(1,2) have "game_inv s g" using reachable_inv by (simp add: server_inv_def)
  then have wf: "wf_board (board g)" by (simp add: game_inv_def)
  from makeMove_accepted [OF assms(3)] assms(2)
  have c: "0 \<le> col" "col \<le> 6" and r: "findRow (board g) col 5 \<noteq> -1" by auto
  from r have rng: "0 \<le> findRow (board g) col 5" "findRow (board g) col 5 < 6"
    using findRow_range [of "board g" col 5] by auto
  from c have c': "col < 7" by simp
  show ?thesis
    using cellAt_setCell [OF wf rng c(1) c'] rng c by (simp add: holds_def)
qed

lemma checkWin_at_placed_cell:
  assumes "reachable s" and "games s gid = Some g"
    and "fst (makeMove sock gid col color now s) = None"
  shows "checkWin (findRow (board g) col 5) col
           (setCell (board g) (findRow (board g) col 5) col color) color
         = four_in_line (setCell (board g) (findRow (board g) col 5) col color) color
             (findRow (board g) col 5) col"
  using placed_cell_holds [OF assms] by (rule checkWin_axes)

section \<open>Reachability of the concrete runs\<close>

lemma run_reachable_aux: "reachable s \<Longrightarrow> reachable (foldl (\<lambda>s e. apply_event e s) s es)"
  by (induction es arbitrary: s) (auto intro: reachable.intros)

lemma run_reachable: "reachable (run es)"
  unfolding run_def by (rule run_reachable_aux) (rule reachable_initial)

lemma reachable_scenarios:
  "reachable two_seated" "reachable red_three" "reachable red_won" "reachable left_open"
  "reachable rejoined" "reachable asked"
  unfolding two_seated_def red_three_def red_won_def left_open_def rejoined_def asked_def
  by (intro reachable_step run_reachable)+

lemma some_the: "x \<noteq> None \<Longrightarrow> x = Some (the x)"
  by simp

section \<open>The claims\<close>

text \<open>
  C1. On a true win \<open>getWinningCells\<close> should return four cells of the winning
  colour, in a line and contiguous. It does not: the function starts at the placed cell
  and steps towards the last cell it collected, so when the placed cell closes a run with
  one or two cells on the second side of the axis, the four cells leave the run. After red
  has played columns 0, 2, 3 and then 1 (yellow always column 6), the session is won by
  red and its \<open>winningCells\<close> are \<open>(5, 1), (5, 0), (5, -1), (5, -2)\<close>: two of
  them are not on the board.
\<close>

theorem getWinningCells_off_board:
  "reachable red_won
   \<and> map_option board (games red_won ''G1'') = Some won_board
   \<and> map_option winner (games red_won ''G1'') = Some (Some ''red'')
   \<and> map_option winningCells (games red_won ''G1'') = Some [(5, 1), (5, 0), (5, -1), (5, -2)]
   \<and> checkWin 5 1 won_board ''red''
   \<and> getWinningCells 5 1 won_board ''red'' = [(5, 1), (5, 0), (5, -1), (5, -2)]
   \<and> map (\<lambda>(r, c). cellAt won_board r c) (getWinningCells 5 1 won_board ''red'')
       = [Some ''red'', Some ''red'', None, None]"
proof -
  have "map_option board (games red_won ''G1'') = Some won_board" by code_simp
  moreover have "map_option winner (games red_won ''G1'') = Some (Some ''red'')" by code_simp
  moreover have "map_option winningCells (games red_won ''G1'') = Some [(5, 1), (5, 0), (5, -1), (5, -2)]"
    by code_simp
  moreover have "checkWin 5 1 won_board ''red''" by code_simp
  moreover have "getWinningCells 5 1 won_board ''red'' = [(5, 1), (5, 0), (5, -1), (5, -2)]" by code_simp
  moreover have "map (\<lambda>(r, c). cellAt won_board r c) (getWinningCells 5 1 won_board ''red'')
       = [Some ''red'', Some ''red'', None, None]" by code_simp
  ultimately show ?thesis using reachable_scenarios(3) by blast
qed

text \<open>
  C2, as claimed, fails: a finished session won by red becomes abandoned with winner
  yellow when red leaves, and an abandoned session goes back to playing when a connection
  joins the vacated yellow seat.
\<close>

theorem finished_session_reopened:
  "reachable red_won
   \<and> map_option status (games red_won ''G1'') = Some Finished
   \<and> map_option winner (games red_won ''G1'') = Some (Some ''red'')
   \<and> map_option status (games (apply_event (LeaveGame ''a1'' ''G1'') red_won) ''G1'') = Some Abandoned
   \<and> map_option winner (games (apply_event (LeaveGame ''a1'' ''G1'') red_won) ''G1'') = Some (Some ''yellow'')
   \<and> reachable left_open
   \<and> map_option status (games left_open ''G1'') = Some Abandoned
   \<and> map_option status (games (apply_event (JoinGame ''c3'' ''G1'') left_open) ''G1'') = Some Playing"
proof -
  have "map_option status (games red_won ''G1'') = Some Finished" by code_simp
  moreover have "map_option winner (games red_won ''G1'') = Some (Some ''red'')" by code_simp
  moreover have "map_option status (games (apply_event (LeaveGame ''a1'' ''G1'') red_won) ''G1'') = Some Abandoned"
    by code_simp
  moreover have "map_option winner (games (apply_event (LeaveGame ''a1'' ''G1'') red_won) ''G1'') = Some (Some ''yellow'')"
    by code_simp
  moreover have "map_option status (games left_open ''G1'') = Some Abandoned" by code_simp
  moreover have "map_option status (games (apply_event (JoinGame ''c3'' ''G1'') left_open) ''G1'') = Some Playing"
    by code_simp
  ultimately show ?thesis using reachable_scenarios(3,4) by blast
qed

text \<open>
  C2, amended. For a session of a reachable state and any event that does not allocate
  the session's id anew: the status changes only along \<open>step_ok\<close>; a finished
  session is left as it is, unless the event is \<open>leaveGame\<close> on it or
  \<open>disconnect\<close> by a connection that holds one of its seats, which vacates the
  seat; a winner that is set stays, with the same exception; and vacating sets the status
  to abandoned and the winner to the colour of the other seat.
\<close>

theorem session_transitions:
  assumes "reachable s" and "games s gid = Some g"
    and "allocated e \<noteq> Some gid" and "games (apply_event e s) gid = Some g'"
  shows "step_ok (status g) (status g')
    \<and> (status g = Finished \<longrightarrow>
         g' = g \<or> (\<exists>sock. (e = LeaveGame sock gid \<or> e = Disconnect sock) \<and> seated sock g
                      \<and> g' = vacate sock g))
    \<and> (truthy (winner g) \<longrightarrow>
         winner g' = winner g
         \<or> (\<exists>sock. (e = LeaveGame sock gid \<or> e = Disconnect sock) \<and> seated sock g
                \<and> g' = vacate sock g))
    \<and> (\<forall>sock. seated sock g \<longrightarrow>
         status (vacate sock g) = Abandoned
         \<and> winner (vacate sock g) = Some (if red (players g) = Some sock then ''yellow'' else ''red''))"
proof -
  from assms(1,2) have inv: "game_inv s g" using reachable_inv by (simp add: server_inv_def)
  have v: "\<forall>sock. seated sock g \<longrightarrow>
         status (vacate sock g) = Abandoned
         \<and> winner (vacate sock g) = Some (if red (players g) = Some sock then ''yellow'' else ''red'')"
    using vacate_seated by blast
  from event_effect [OF inv assms(2) assms(3) assms(4)]
  consider (same) "g' = g"
    | (join) sock where "e = JoinGame sock gid" "\<not> truthy (yellow (players g))" "status g \<noteq> Finished"
        "status g' = Playing" "winner g' = winner g"
    | (move) sock col color now where "e = MakeMove sock gid col color now" "\<not> truthy (winner g)"
        "status g = Playing" "g' = moved g col color now"
    | (left) sock where "e = LeaveGame sock gid \<or> e = Disconnect sock" "seated sock g" "g' = vacate sock g"
    by blast
  then have "step_ok (status g) (status g')
    \<and> (status g = Finished \<longrightarrow>
         g' = g \<or> (\<exists>sock. (e = LeaveGame sock gid \<or> e = Disconnect sock) \<and> seated sock g
                      \<and> g' = vacate sock g))
    \<and> (truthy (winner g) \<longrightarrow>
         winner g' = winner g
         \<or> (\<exists>sock. (e = LeaveGame sock gid \<or> e = Disconnect sock) \<and> seated sock g
                \<and> g' = vacate sock g))"
  proof cases
    case same
    then show ?thesis by (simp add: step_ok_def)
  next
    case join
    from inv join(2) have "status g = Waiting \<or> status g = Playing \<or> status g = Abandoned"
      by (cases "status g") (auto simp: game_inv_def)
    with join show ?thesis by (auto simp: step_ok_def)
  next
    case move
    with moved_status [of g col color now] show ?thesis by (auto simp: step_ok_def)
  next
    case left
    with vacate_seated [of sock g] show ?thesis by (auto simp: step_ok_def)
  qed
  with v show ?thesis by blast
qed

text \<open>The amended C2 at the finished session of \<open>red_won\<close>, which red leaves.\<close>

theorem session_transitions_witness:
  "reachable red_won
   \<and> games red_won ''G1'' \<noteq> None
   \<and> status (the (games red_won ''G1'')) = Finished
   \<and> step_ok (status (the (games red_won ''G1'')))
        (status (the (games (apply_event (LeaveGame ''a1'' ''G1'') red_won) ''G1'')))
   \<and> seated ''a1'' (the (games red_won ''G1''))
   \<and> the (games (apply_event (LeaveGame ''a1'' ''G1'') red_won) ''G1'')
        = vacate ''a1'' (the (games red_won ''G1''))
   \<and> status (vacate ''a1'' (the (games red_won ''G1''))) = Abandoned
   \<and> winner (vacate ''a1'' (the (games red_won ''G1''))) = Some ''yellow''"
proof -
  let ?e = "LeaveGame ''a1'' ''G1''"
  have a: "games red_won ''G1'' \<noteq> None" by code_simp
  have b: "games (apply_event ?e red_won) ''G1'' \<noteq> None" by code_simp
  have c: "allocated ?e \<noteq> Some ''G1''" by simp
  have f: "status (the (games red_won ''G1'')) = Finished" by code_simp
  have r: "red (players (the (games red_won ''G1''))) = Some ''a1''" by code_simp
  have d: "the (games (apply_event ?e red_won) ''G1'') \<noteq> the (games red_won ''G1'')"
  proof
    assume "the (games (apply_event ?e red_won) ''G1'') = the (games red_won ''G1'')"
    then have "status (the (games (apply_event ?e red_won) ''G1'')) = status (the (games red_won ''G1''))"
      by simp
    then show False by code_simp
  qed
  from session_transitions [OF reachable_scenarios(3) some_the [OF a] c some_the [OF b]] f d r
  show ?thesis using reachable_scenarios(3) a by auto
qed

text \<open>
  C3, as claimed, fails when \<open>generateGameId\<close> draws the id of the old session:
  the new session is stored under that id and deleted with the old one.
\<close>

theorem acceptRematch_same_id:
  "map_option opponent (pendingRematches asked ''G1'') = Some (Some ''b2'')
   \<and> games asked ''G1'' \<noteq> None
   \<and> playerStats asked (originalGameId (the (games asked ''G1''))) \<noteq> None
   \<and> fst (acceptRematch ''b2'' ''G1'' ''G1'' 30 asked) = None
   \<and> games (snd (acceptRematch ''b2'' ''G1'' ''G1'' 30 asked)) ''G1'' = None"
proof -
  have "map_option opponent (pendingRematches asked ''G1'') = Some (Some ''b2'')" by code_simp
  moreover have "games asked ''G1'' \<noteq> None" by code_simp
  moreover have "playerStats asked (originalGameId (the (games asked ''G1''))) \<noteq> None" by code_simp
  moreover have "fst (acceptRematch ''b2'' ''G1'' ''G1'' 30 asked) = None" by code_simp
  moreover have "games (snd (acceptRematch ''b2'' ''G1'' ''G1'' 30 asked)) ''G1'' = None" by code_simp
  ultimately show ?thesis by blast
qed

text \<open>
  C3, amended. When the drawn id differs from the old session's id, accepting a pending
  rematch by the recorded opponent, on an existing session with existing series stats,
  succeeds and stores a new session under the drawn id: same series id, game number
  \<open>gamesPlayed + 1\<close>, status playing, the seats of the old session, an empty board;
  the old session and the pending entry are deleted.
\<close>

theorem acceptRematch_new_session:
  assumes "pendingRematches s gid = Some pr" and "opponent pr = Some sock"
    and "games s gid = Some g" and "playerStats s (originalGameId g) = Some st"
    and "newGameId \<noteq> gid"
  shows "fst (acceptRematch sock gid newGameId now s) = None
     \<and> (\<exists>ng. games (snd (acceptRematch sock gid newGameId now s)) newGameId = Some ng
           \<and> originalGameId ng = originalGameId g
           \<and> gameNumber ng = gamesPlayed st + 1
           \<and> status ng = Playing
           \<and> players ng = players g
           \<and> board ng = emptyBoard \<and> moves ng = 0 \<and> winner ng = None \<and> currentPlayer ng = ''red'')
     \<and> games (snd (acceptRematch sock gid newGameId now s)) gid = None
     \<and> pendingRematches (snd (acceptRematch sock gid newGameId now s)) gid = None"
  using assms by (simp add: acceptRematch_def Let_def)

text \<open>The amended C3 on the run \<open>asked\<close>, with the new id \<open>G2\<close>.\<close>

theorem acceptRematch_new_session_witness:
  "fst (acceptRematch ''b2'' ''G1'' ''G2'' 30 asked) = None
   \<and> (\<exists>ng. games (snd (acceptRematch ''b2'' ''G1'' ''G2'' 30 asked)) ''G2'' = Some ng
         \<and> originalGameId ng = ''G1'' \<and> gameNumber ng = 1 \<and> status ng = Playing
         \<and> red (players ng) = Some ''a1'' \<and> yellow (players ng) = Some ''b2''
         \<and> board ng = emptyBoard)
   \<and> games (snd (acceptRematch ''b2'' ''G1'' ''G2'' 30 asked)) ''G1'' = None
   \<and> pendingRematches (snd (acceptRematch ''b2'' ''G1'' ''G2'' 30 asked)) ''G1'' = None"
proof -
  have p: "pendingRematches asked ''G1'' \<noteq> None" by code_simp
  have q: "opponent (the (pendingRematches asked ''G1'')) = Some ''b2''" by code_simp
  have g: "games asked ''G1'' \<noteq> None" by code_simp
  have t: "playerStats asked (originalGameId (the (games asked ''G1''))) \<noteq> None" by code_simp
  have n: "''G2'' \<noteq> ''G1''" by simp
  have o: "originalGameId (the (games asked ''G1'')) = ''G1''" by code_simp
  have k: "gamesPlayed (the (playerStats asked (originalGameId (the (games asked ''G1''))))) = 0"
    by code_simp
  have r: "red (players (the (games asked ''G1''))) = Some ''a1''" by code_simp
  have y: "yellow (players (the (games asked ''G1''))) = Some ''b2''" by code_simp
  from acceptRematch_new_session [OF some_the [OF p] q some_the [OF g] some_the [OF t] n, of 30]
  show ?thesis using o k r y by auto
qed

text \<open>
  C4. In a reachable state, an accepted \<open>makeMove\<close> that wins adds exactly one to
  the win counter of the moving colour and to \<open>gamesPlayed\<close> of the session's
  series, and leaves the other colour's entry alone; an accepted move that does not win
  (a draw among them) leaves \<open>playerStats\<close> as it was.
\<close>

theorem win_updates_series_stats:
  assumes "reachable s" and "games s gid = Some g"
    and "fst (makeMove sock gid col color now s) = None"
  shows "(checkWin (findRow (board g) col 5) col (setCell (board g) (findRow (board g) col 5) col color) color
          \<longrightarrow> (\<exists>st st'. playerStats s (originalGameId g) = Some st
                 \<and> playerStats (snd (makeMove sock gid col color now s)) (originalGameId g) = Some st'
                 \<and> gamesPlayed st' = gamesPlayed st + 1
                 \<and> (color = ''red'' \<and> wins (redStats st') = wins (redStats st) + 1
                        \<and> yellowStats st' = yellowStats st
                     \<or> color = ''yellow'' \<and> wins (yellowStats st') = wins (yellowStats st) + 1
                        \<and> redStats st' = redStats st)))
     \<and> (\<not> checkWin (findRow (board g) col 5) col (setCell (board g) (findRow (board g) col 5) col color) color
          \<longrightarrow> playerStats (snd (makeMove sock gid col color now s)) = playerStats s)"
proof (intro conjI impI)
  assume w: "checkWin (findRow (board g) col 5) col (setCell (board g) (findRow (board g) col 5) col color) color"
  from assms(1,2) have inv: "game_inv s g" using reachable_inv by (simp add: server_inv_def)
  from makeMove_accepted [OF assms(3)] assms(2)
  have a: "currentPlayer g = color" "truthy (yellow (players g))" by auto
  from inv a(1) have c: "color = ''red'' \<or> color = ''yellow''" by (auto simp: game_inv_def)
  from inv a(2) obtain st where st: "playerStats s (originalGameId g) = Some st"
    by (auto simp: game_inv_def truthy_def)
  have eq: "playerStats (snd (makeMove sock gid col color now s))
         = playerStats (updatePlayerStats (originalGameId g) color s)"
    using assms(2,3) w by (rule makeMove_stats_win)
  from c show "\<exists>st st'. playerStats s (originalGameId g) = Some st
                 \<and> playerStats (snd (makeMove sock gid col color now s)) (originalGameId g) = Some st'
                 \<and> gamesPlayed st' = gamesPlayed st + 1
                 \<and> (color = ''red'' \<and> wins (redStats st') = wins (redStats st) + 1
                        \<and> yellowStats st' = yellowStats st
                     \<or> color = ''yellow'' \<and> wins (yellowStats st') = wins (yellowStats st) + 1
                        \<and> redStats st' = redStats st)"
  proof
    assume r: "color = ''red''"
    from updatePlayerStats_red [OF st] obtain st' where
      "playerStats (updatePlayerStats (originalGameId g) ''red'' s) (originalGameId g) = Some st'"
      "gamesPlayed st' = gamesPlayed st + 1" "wins (redStats st') = wins (redStats st) + 1"
      "yellowStats st' = yellowStats st" by blast
    with st eq r show ?thesis by auto
  next
    assume y: "color = ''yellow''"
    from updatePlayerStats_yellow [OF st] obtain st' where
      "playerStats (updatePlayerStats (originalGameId g) ''yellow'' s) (originalGameId g) = Some st'"
      "gamesPlayed st' = gamesPlayed st + 1" "wins (yellowStats st') = wins (yellowStats st) + 1"
      "redStats st' = redStats st" by blast
    with st eq y show ?thesis by auto
  qed
next
  assume "\<not> checkWin (findRow (board g) col 5) col (setCell (board g) (findRow (board g) col 5) col color) color"
  with assms(2,3) show "playerStats (snd (makeMove sock gid col color now s)) = playerStats s"
    by (rule makeMove_stats_other)
qed

text \<open>C4 at red's winning move in \<open>red_three\<close>.\<close>

theorem win_updates_series_stats_witness:
  "reachable red_three
   \<and> fst (makeMove ''a1'' ''G1'' 1 ''red'' 17 red_three) = None
   \<and> (\<exists>st st'. playerStats red_three ''G1'' = Some st
         \<and> playerStats (snd (makeMove ''a1'' ''G1'' 1 ''red'' 17 red_three)) ''G1'' = Some st'
         \<and> gamesPlayed st' = gamesPlayed st + 1
         \<and> wins (redStats st') = wins (redStats st) + 1
         \<and> yellowStats st' = yellowStats st)"
proof -
  let ?g = "the (games red_three ''G1'')"
  have g: "games red_three ''G1'' \<noteq> None" by code_simp
  have a: "fst (makeMove ''a1'' ''G1'' 1 ''red'' 17 red_three) = None" by code_simp
  have w: "checkWin (findRow (board ?g) 1 5) 1 (setCell (board ?g) (findRow (board ?g) 1 5) 1 ''red'') ''red''"
    by code_simp
  have o: "originalGameId ?g = ''G1''" by code_simp
  from win_updates_series_stats [OF reachable_scenarios(2) some_the [OF g] a] w o
  show ?thesis using reachable_scenarios(2) a by auto
qed

text \<open>
  C5. \<open>makeMove\<close> emits an error exactly on the six grounds of \<open>rejects\<close>,
  and then the whole server state, the session with it, is what it was.
\<close>

theorem makeMove_rejected_unchanged:
  "(fst (makeMove sock gid col color now s) \<noteq> None \<longleftrightarrow> rejects gid col color s)
   \<and> (fst (makeMove sock gid col color now s) \<noteq> None \<longrightarrow> snd (makeMove sock gid col color now s) = s)"
  by (auto simp: makeMove_def rejects_def Let_def split: option.splits)

text \<open>C5 at a move by yellow on red's turn.\<close>

theorem makeMove_rejected_unchanged_witness:
  "fst (makeMove ''b2'' ''G1'' 3 ''yellow'' 20 two_seated) = Some NotYourTurn
   \<and> rejects ''G1'' 3 ''yellow'' two_seated
   \<and> snd (makeMove ''b2'' ''G1'' 3 ''yellow'' 20 two_seated) = two_seated"
proof -
  have "fst (makeMove ''b2'' ''G1'' 3 ''yellow'' 20 two_seated) = Some NotYourTurn"
    by code_simp
  with makeMove_rejected_unchanged [of "''b2''" "''G1''" 3 "''yellow''" 20 two_seated]
  show ?thesis by simp
qed



text \<open>
  C7. In a reachable state, an accepted \<open>makeMove\<close> by a colour that neither wins
  nor fills the board leaves the session playing and passes the turn to the other colour;
  a winning or board-filling move sets the status to finished and leaves the turn with the
  mover.
\<close>

theorem turn_alternation:
  assumes "reachable s" and "games s gid = Some g"
    and "fst (makeMove sock gid col color now s) = None"
  shows "\<exists>g'. games (snd (makeMove sock gid col color now s)) gid = Some g'
     \<and> board g' = setCell (board g) (findRow (board g) col 5) col color
     \<and> (if checkWin (findRow (board g) col 5) col (board g') color \<or> isBoardFull (board g')
        then status g' = Finished \<and> currentPlayer g' = color
        else status g' = Playing \<and> currentPlayer g' \<noteq> color
             \<and> (color = ''red'' \<and> currentPlayer g' = ''yellow''
                 \<or> color = ''yellow'' \<and> currentPlayer g' = ''red''))"
proof -
  from assms(1,2) have inv: "game_inv s g" using reachable_inv by (simp add: server_inv_def)
  from makeMove_accepted [OF assms(3)] assms(2)
  have a: "\<not> truthy (winner g)" "currentPlayer g = color" "truthy (yellow (players g))"
    and m: "games (snd (makeMove sock gid col color now s)) = (games s)(gid \<mapsto> moved g col color now)"
    by auto
  from inv a(2) have c: "color = ''red'' \<or> color = ''yellow''" by (auto simp: game_inv_def)
  from inv a(1,3) have p: "status g = Playing"
    by (cases "status g") (auto simp: game_inv_def truthy_def)
  let ?g' = "moved g col color now"
  have "games (snd (makeMove sock gid col color now s)) gid = Some ?g'" using m by simp
  moreover have "board ?g' = setCell (board g) (findRow (board g) col 5) col color"
    by (rule moved_board)
  moreover have "if checkWin (findRow (board g) col 5) col (board ?g') color \<or> isBoardFull (board ?g')
        then status ?g' = Finished \<and> currentPlayer ?g' = color
        else status ?g' = Playing \<and> currentPlayer ?g' \<noteq> color
             \<and> (color = ''red'' \<and> currentPlayer ?g' = ''yellow''
                 \<or> color = ''yellow'' \<and> currentPlayer ?g' = ''red'')"
    using moved_terminal [of g col color now] moved_open [of g col color now] a(2) c p
    by (auto simp: moved_board)
  ultimately show ?thesis by blast
qed

text \<open>C7 at the first move of a game and at red's winning move.\<close>

theorem turn_alternation_witness:
  "reachable two_seated
   \<and> fst (makeMove ''a1'' ''G1'' 3 ''red'' 11 two_seated) = None
   \<and> (\<exists>g'. games (snd (makeMove ''a1'' ''G1'' 3 ''red'' 11 two_seated)) ''G1'' = Some g'
         \<and> status g' = Playing \<and> currentPlayer g' = ''yellow'')
   \<and> reachable red_three
   \<and> fst (makeMove ''a1'' ''G1'' 1 ''red'' 17 red_three) = None
   \<and> (\<exists>g'. games (snd (makeMove ''a1'' ''G1'' 1 ''red'' 17 red_three)) ''G1'' = Some g'
         \<and> status g' = Finished \<and> currentPlayer g' = ''red'')"
proof -
  let ?g = "the (games two_seated ''G1'')"
  let ?b = "setCell (board ?g) (findRow (board ?g) 3 5) 3 ''red''"
  have g: "games two_seated ''G1'' \<noteq> None" by code_simp
  have a: "fst (makeMove ''a1'' ''G1'' 3 ''red'' 11 two_seated) = None" by code_simp
  have w: "\<not> (checkWin (findRow (board ?g) 3 5) 3 ?b ''red'' \<or> isBoardFull ?b)" by code_simp
  let ?h = "the (games red_three ''G1'')"
  let ?c = "setCell (board ?h) (findRow (board ?h) 1 5) 1 ''red''"
  have g': "games red_three ''G1'' \<noteq> None" by code_simp
  have a': "fst (makeMove ''a1'' ''G1'' 1 ''red'' 17 red_three) = None" by code_simp
  have w': "checkWin (findRow (board ?h) 1 5) 1 ?c ''red''" by code_simp
  from turn_alternation [OF reachable_scenarios(1) some_the [OF g] a]
    turn_alternation [OF reachable_scenarios(2) some_the [OF g'] a'] w w'
  show ?thesis using reachable_scenarios(1,2) a a' by auto
qed

text \<open>
  C8 does not hold of the handler: a \<open>makeMove\<close> with the column 2.5 passes the
  range test, finds \<open>board[5][2.5]\<close> undefined and takes row 5, writes the colour
  to a property of the row that is no cell, and increments \<open>moves\<close>; the session
  then has \<open>moves = 1\<close> and no non-empty cell. That column is outside the model.
  What the handler keeps is the counter on integer columns: there, in every reachable
  state, \<open>moves\<close> is the number of non-empty cells, and an accepted move adds one
  to both.
\<close>

lemma moves_count_cells_integer_columns:
  assumes "reachable s" and "games s gid = Some g"
  shows "moves g = int (filled (board g))
     \<and> (\<forall>sock col color now. fst (makeMove sock gid col color now s) = None \<longrightarrow>
          (\<exists>g'. games (snd (makeMove sock gid col color now s)) gid = Some g'
             \<and> moves g' = moves g + 1 \<and> filled (board g') = filled (board g) + 1))"
proof (intro conjI allI impI)
  from assms have inv: "game_inv s g" using reachable_inv by (simp add: server_inv_def)
  then show "moves g = int (filled (board g))" by (simp add: game_inv_def)
  fix sock col color now
  assume acc: "fst (makeMove sock gid col color now s) = None"
  from makeMove_accepted [OF acc] assms(2)
  have a: "\<not> truthy (winner g)" "currentPlayer g = color" "truthy (red (players g))"
    "truthy (yellow (players g))" "0 \<le> col" "col \<le> 6" "findRow (board g) col 5 \<noteq> -1"
    and m: "games (snd (makeMove sock gid col color now s)) = (games s)(gid \<mapsto> moved g col color now)"
    by auto
  have "game_inv s (moved g col color now)"
    using moved_inv [OF inv a(1) a(3) a(4) a(5) a(6) a(7)] a(2) by simp
  then have "moves (moved g col color now) = int (filled (board (moved g col color now)))"
    by (simp add: game_inv_def)
  moreover have "moves (moved g col color now) = moves g + 1"
    by (simp add: moved_def Let_def placeDisc_def)
  moreover note inv
  ultimately have "moves (moved g col color now) = moves g + 1
      \<and> filled (board (moved g col color now)) = filled (board g) + 1"
    by (simp add: game_inv_def)
  with m show "\<exists>g'. games (snd (makeMove sock gid col color now s)) gid = Some g'
             \<and> moves g' = moves g + 1 \<and> filled (board g') = filled (board g) + 1"
    by simp
qed

text \<open>
  C9, as claimed for every session in playing status, fails: \<open>makeMove\<close> reads
  the winner, not the status. In \<open>rejoined\<close> the session is playing with both
  seats, it is red's turn and column 0 is empty, and red's move is refused because the
  winner set when yellow left is still there.
\<close>

theorem playing_session_rejects_move:
  "reachable rejoined
   \<and> map_option status (games rejoined ''G1'') = Some Playing
   \<and> map_option (\<lambda>g. truthy (red (players g)) \<and> truthy (yellow (players g))) (games rejoined ''G1'')
       = Some True
   \<and> map_option currentPlayer (games rejoined ''G1'') = Some ''red''
   \<and> map_option (\<lambda>g. findRow (board g) 0 5) (games rejoined ''G1'') = Some 5
   \<and> fst (makeMove ''a1'' ''G1'' 0 ''red'' 30 rejoined) = Some GameEnded"
proof -
  have "map_option status (games rejoined ''G1'') = Some Playing" by code_simp
  moreover have "map_option (\<lambda>g. truthy (red (players g)) \<and> truthy (yellow (players g)))
       (games rejoined ''G1'') = Some True" by code_simp
  moreover have "map_option currentPlayer (games rejoined ''G1'') = Some ''red''" by code_simp
  moreover have "map_option (\<lambda>g. findRow (board g) 0 5) (games rejoined ''G1'') = Some 5" by code_simp
  moreover have "fst (makeMove ''a1'' ''G1'' 0 ''red'' 30 rejoined) = Some GameEnded" by code_simp
  ultimately show ?thesis using reachable_scenarios(5) by blast
qed

text \<open>
  C9, amended. For a session with no winner set and both seats filled, a move in a column
  that is in range and not full, claiming the colour whose turn it is, is accepted, and
  \<open>makeMove\<close> returns the same reply and state for every submitting connection.
\<close>

theorem makeMove_any_connection:
  assumes "games s gid = Some g" and "\<not> truthy (winner g)"
    and "truthy (red (players g))" and "truthy (yellow (players g))"
    and "currentPlayer g = c" and "0 \<le> col" and "col \<le> 6" and "findRow (board g) col 5 \<noteq> -1"
  shows "fst (makeMove sock gid col c now s) = None
     \<and> makeMove sock' gid col c now s = makeMove sock gid col c now s
     \<and> (\<exists>g'. games (snd (makeMove sock gid col c now s)) gid = Some g'
           \<and> board g' = setCell (board g) (findRow (board g) col 5) col c
           \<and> moves g' = moves g + 1)"
proof -
  have acc: "fst (makeMove sock gid col c now s) = None"
    using assms by (simp add: makeMove_def Let_def)
  have same: "makeMove sock' gid col c now s = makeMove sock gid col c now s"
    by (simp add: makeMove_def)
  from makeMove_accepted [OF acc] assms(1)
  have "games (snd (makeMove sock gid col c now s)) gid = Some (moved g col c now)" by auto
  with acc same show ?thesis by (simp add: moved_board moved_moves)
qed

text \<open>The amended C9 for a connection that holds neither seat.\<close>

theorem makeMove_any_connection_witness:
  "fst (makeMove ''zz'' ''G1'' 3 ''red'' 11 two_seated) = None
   \<and> \<not> seated ''zz'' (the (games two_seated ''G1''))
   \<and> makeMove ''a1'' ''G1'' 3 ''red'' 11 two_seated = makeMove ''zz'' ''G1'' 3 ''red'' 11 two_seated
   \<and> (\<exists>g'. games (snd (makeMove ''zz'' ''G1'' 3 ''red'' 11 two_seated)) ''G1'' = Some g' \<and> moves g' = 1)"
proof -
  let ?g = "the (games two_seated ''G1'')"
  have g: "games two_seated ''G1'' \<noteq> None" by code_simp
  have h: "\<not> truthy (winner ?g)" "truthy (red (players ?g))" "truthy (yellow (players ?g))"
    "currentPlayer ?g = ''red''" "findRow (board ?g) 3 5 \<noteq> -1" by code_simp+
  have z: "\<not> seated ''zz'' ?g" by code_simp
  have m: "moves ?g = 0" by code_simp
  from makeMove_any_connection [where sock = "''zz''" and sock' = "''a1''" and now = 11 and col = 3,
      OF some_the [OF g] h(1) h(2) h(3) h(4) _ _ h(5)] z m
  show ?thesis by auto
qed

text \<open>
  C10. For a session with both seats filled, whatever its status and winner,
  \<open>requestRematch\<close> succeeds and overwrites the pending entry of the session id
  with the requester, the other seat and the time of the request.
\<close>

theorem requestRematch_any_status:
  assumes "games s gid = Some g"
    and "truthy (red (players g))" and "truthy (yellow (players g))"
  shows "requestRematch sock gid now s =
     (None, s\<lparr>pendingRematches := (pendingRematches s)(gid \<mapsto>
        \<lparr>gameId = gid, requester = sock,
         opponent = (if red (players g) = Some sock then yellow (players g) else red (players g)),
         timestamp = now\<rparr>)\<rparr>)"
  using assms by (simp add: requestRematch_def Let_def)

text \<open>C10 on a playing session without winner, over red's earlier request.\<close>

theorem requestRematch_any_status_witness:
  "map_option status (games asked ''G1'') = Some Playing
   \<and> map_option winner (games asked ''G1'') = Some None
   \<and> map_option requester (pendingRematches asked ''G1'') = Some ''a1''
   \<and> requestRematch ''b2'' ''G1'' 25 asked =
       (None, asked\<lparr>pendingRematches := (pendingRematches asked)(''G1'' \<mapsto>
          \<lparr>gameId = ''G1'', requester = ''b2'', opponent = Some ''a1'', timestamp = 25\<rparr>)\<rparr>)"
proof -
  let ?g = "the (games asked ''G1'')"
  have g: "games asked ''G1'' \<noteq> None" by code_simp
  have h: "truthy (red (players ?g))" "truthy (yellow (players ?g))" by code_simp+
  have r: "red (players ?g) = Some ''a1''" by code_simp
  have "map_option status (games asked ''G1'') = Some Playing" by code_simp
  moreover have "map_option winner (games asked ''G1'') = Some None" by code_simp
  moreover have "map_option requester (pendingRematches asked ''G1'') = Some ''a1''" by code_simp
  moreover from requestRematch_any_status [OF some_the [OF g] h, of "''b2''" 25] r
  have "requestRematch ''b2'' ''G1'' 25 asked =
       (None, asked\<lparr>pendingRematches := (pendingRematches asked)(''G1'' \<mapsto>
          \<lparr>gameId = ''G1'', requester = ''b2'', opponent = Some ''a1'', timestamp = 25\<rparr>)\<rparr>)"
    by simp
  ultimately show ?thesis by blast
qed

end
